theory Spec2Isabelle
  imports Complex_Main
begin

section \<open>Data model\<close>

text \<open>
  A numpy array is a shape together with its elements in row-major order. The elements
  are idealised as real numbers. Where numpy would go on with \<open>nan\<close> or \<open>inf\<close>, the
  model says so: an angle is a \<open>real option\<close> with \<open>None\<close> for \<open>nan\<close>, and a zoom
  computation that divides by zero ends with the error \<open>NonFinite\<close>.
\<close>

record ndarray =
  shape :: "nat list"
  elems :: "real list"

text \<open>A \<open>nibabel.Nifti1Image\<close>: the data array, the affine and the header's zooms.\<close>

record nifti =
  dataobj :: ndarray
  affine :: ndarray
  zooms :: "real list"

text \<open>
  Every way a call can end without a result. The assertions carry the line of
  \<open>nifti.py\<close> they sit on in their name's comment; \<open>MeanModeUnsupported\<close> carries the
  input zooms that the assertion message of line 77 prints.
\<close>

datatype error =
    DimensionMismatch               \<comment> \<open>line 72\<close>
  | InconsistentAffine              \<comment> \<open>line 73\<close>
  | MeanModeUnsupported "real list" \<comment> \<open>line 77, message formatted with \<open>input_zooms\<close>\<close>
  | OrderNotInt                     \<comment> \<open>line 83\<close>
  | ZoomsMismatch                   \<comment> \<open>line 91\<close>
  | ShapeAssertion                  \<comment> \<open>line 148\<close>
  | BroadcastError                  \<comment> \<open>numpy: operands could not be broadcast together\<close>
  | NonFinite                       \<comment> \<open>a float division by zero, or a square root of a negative\<close>
  | ZeroDivisionError               \<comment> \<open>Python's \<open>1 / 0\<close> on an \<open>int\<close>\<close>
  | HeaderDataError                 \<comment> \<open>\<open>set_zooms\<close> refuses the zooms\<close>
  | CollaboratorError string        \<comment> \<open>raised inside an external routine\<close>

text \<open>
  An external routine either returns or raises an exception of its own, given here by
  its message; inside this module the exception is not caught and travels on.
\<close>

definition external :: "string + 'a \<Rightarrow> error + 'a" where
  "external r = (case r of Inl msg \<Rightarrow> Inl (CollaboratorError msg) | Inr v \<Rightarrow> Inr v)"

section \<open>Orthogonalizer\<close>

text \<open>
  \<open>dicom2nifti.settings\<close> holds two module-level variables; they are the state that
  \<open>orthogonalize_nifti\<close> writes.
\<close>

record settings =
  resample_padding :: int
  resample_spline_interpolation_order :: int

definition set_resample_padding :: "int \<Rightarrow> settings \<Rightarrow> settings" where
  "set_resample_padding v s = s\<lparr>resample_padding := v\<rparr>"

definition set_resample_spline_interpolation_order :: "int \<Rightarrow> settings \<Rightarrow> settings" where
  "set_resample_spline_interpolation_order v s = s\<lparr>resample_spline_interpolation_order := v\<rparr>"

definition default_settings :: settings where
  "default_settings = \<lparr>resample_padding = 0, resample_spline_interpolation_order = 0\<rparr>"

text \<open>
  \<open>d2n.resample.resample_nifti_images\<close> is external: it reads the settings and either
  raises or returns a list of images. It is a parameter of the model.
\<close>

type_synonym oblique_resampler = "settings \<Rightarrow> nifti list \<Rightarrow> string + nifti list"

text \<open>
  Lines 124 to 129. An exception raised on line 126 leaves the function there, so the
  two statements after it do not run: the state returned with \<open>Inl e\<close> is the one the
  call ran under.
\<close>

definition orthogonalize_nifti ::
  "oblique_resampler \<Rightarrow> nifti \<Rightarrow> int \<Rightarrow> int \<Rightarrow> settings \<Rightarrow> (error + nifti list) \<times> settings" where
  "orthogonalize_nifti resample_nifti_images img padding order s0 =
     (let s1 = set_resample_padding padding s0;
          s2 = set_resample_spline_interpolation_order order s1
      in case external (resample_nifti_images s2 [img]) of
           Inl e \<Rightarrow> (Inl e, s2)
         | Inr orthogonal_nii \<Rightarrow>
             (let s3 = set_resample_spline_interpolation_order 0 s2;
                  s4 = set_resample_padding 0 s3
              in (Inr orthogonal_nii, s4)))"

text \<open>A resampler that always raises, and an image to call it on.\<close>

definition failing_resampler :: oblique_resampler where
  "failing_resampler s imgs = Inl ''resample''"

definition eye4 :: ndarray where
  "eye4 = \<lparr>shape = [4, 4], elems = [1, 0, 0, 0,  0, 1, 0, 0,  0, 0, 1, 0,  0, 0, 0, 1]\<rparr>"

definition tiny_image :: nifti where
  "tiny_image = \<lparr>dataobj = \<lparr>shape = [1, 1, 1], elems = [7]\<rparr>, affine = eye4, zooms = [1, 1, 1]\<rparr>"

section \<open>AffineGeometry\<close>

text \<open>
  \<open>affine[:, j]\<close> of a two-dimensional array: one element of every row. The number of
  rows and the row length come from the shape.
\<close>

definition column :: "ndarray \<Rightarrow> nat \<Rightarrow> real list" where
  "column A j = map (\<lambda>i. elems A ! (i * (shape A ! 1) + j)) [0..<shape A ! 0]"

text \<open>\<open>np.sum(u * v)\<close> and \<open>np.linalg.norm(u)\<close> of one-dimensional arrays.\<close>

definition np_sum_prod :: "real list \<Rightarrow> real list \<Rightarrow> real" where
  "np_sum_prod u v = sum_list (map2 (*) u v)"

definition linalg_norm :: "real list \<Rightarrow> real" where
  "linalg_norm u = sqrt (sum_list (map (\<lambda>x. x * x) u))"

text \<open>
  \<open>np.arccos\<close> gives \<open>nan\<close> outside \<open>[-1, 1]\<close>, and a quotient by a zero norm is
  \<open>nan\<close> or \<open>inf\<close>, whose arc cosine is \<open>nan\<close>; numpy warns and goes on. \<open>None\<close> is
  that \<open>nan\<close>.
\<close>

definition np_arccos :: "real \<Rightarrow> real option" where
  "np_arccos c = (if - 1 \<le> c \<and> c \<le> 1 then Some (arccos c) else None)"

definition angle_between :: "real list \<Rightarrow> real list \<Rightarrow> real option" where
  "angle_between u v =
     (let d = linalg_norm u * linalg_norm v
      in if d = 0 then None else np_arccos (np_sum_prod u v / d))"

definition to_degrees :: "real option \<Rightarrow> real option" where
  "to_degrees a = map_option (\<lambda>x. x * 180 / pi) a"

text \<open>Lines 148 to 157.\<close>

definition get_angles_between_axes ::
  "ndarray \<Rightarrow> bool \<Rightarrow> error + (real option \<times> real option \<times> real option)" where
  "get_angles_between_axes A in_degrees =
     (if shape A \<noteq> [4, 4] then Inl ShapeAssertion
      else
        let xy = angle_between (column A 0) (column A 1);
            xz = angle_between (column A 0) (column A 2);
            yz = angle_between (column A 1) (column A 2)
        in if in_degrees then Inr (to_degrees xy, to_degrees xz, to_degrees yz)
           else Inr (xy, xz, yz))"

text \<open>
  \<open>np.abs(90 - a) <= t\<close>: a comparison with \<open>nan\<close> is false.
\<close>

definition deviation_within :: "real option \<Rightarrow> real \<Rightarrow> bool" where
  "deviation_within a t = (case a of None \<Rightarrow> False | Some x \<Rightarrow> \<bar>90 - x\<bar> \<le> t)"

text \<open>Lines 176 and 177. The tolerances are a triple, as the default \<open>(1, 1, 1)\<close> is.\<close>

definition is_orthogonal_affine :: "ndarray \<Rightarrow> real \<times> real \<times> real \<Rightarrow> error + bool" where
  "is_orthogonal_affine A max_allowed =
     (case get_angles_between_axes A True of
        Inl e \<Rightarrow> Inl e
      | Inr (xy, xz, yz) \<Rightarrow>
          (case max_allowed of (t0, t1, t2) \<Rightarrow>
             Inr (deviation_within xy t0 \<and> deviation_within xz t1 \<and> deviation_within yz t2)))"



text \<open>A matrix of shape 4 by 4 whose bottom row is \<open>(1, 1, 0, 1)\<close>.\<close>

definition skewed_bottom :: ndarray where
  "skewed_bottom = \<lparr>shape = [4, 4], elems = [1, 0, 0, 0,  0, 1, 0, 0,  0, 0, 1, 0,  1, 1, 0, 1]\<rparr>"

section \<open>Resampler\<close>

subsection \<open>numpy: broadcasting, closeness, indexing\<close>

text \<open>
  An operation on two one-dimensional arrays: element by element when the lengths
  agree, one element against all when one length is 1, and a \<open>ValueError\<close> otherwise.
\<close>

definition broadcast2 :: "(real \<Rightarrow> real \<Rightarrow> 'a) \<Rightarrow> real list \<Rightarrow> real list \<Rightarrow> error + 'a list" where
  "broadcast2 f xs ys =
     (if length xs = length ys then Inr (map2 f xs ys)
      else if length xs = 1 then Inr (map (f (hd xs)) ys)
      else if length ys = 1 then Inr (map (\<lambda>x. f x (hd ys)) xs)
      else Inl BroadcastError)"

text \<open>\<open>np.allclose(a, b)\<close> with its defaults \<open>rtol = 1e-05\<close> and \<open>atol = 1e-08\<close>.\<close>

definition is_close :: "real \<Rightarrow> real \<Rightarrow> bool" where
  "is_close a b = (\<bar>a - b\<bar> \<le> 1 / 10 ^ 8 + 1 / 10 ^ 5 * \<bar>b\<bar>)"

definition np_allclose :: "real list \<Rightarrow> real list \<Rightarrow> error + bool" where
  "np_allclose a b =
     (case broadcast2 is_close a b of
        Inl e \<Rightarrow> Inl e
      | Inr cs \<Rightarrow> Inr (list_all (\<lambda>c. c) cs))"

text \<open>
  \<open>np.linalg.norm(affine[:3, :3], 2, axis=0)\<close>: the norm of each column of the upper
  left block.
\<close>

definition column_norms :: "ndarray \<Rightarrow> real list" where
  "column_norms A = map (\<lambda>j. linalg_norm (take 3 (column A j))) [0..<min 3 (shape A ! 1)]"

text \<open>
  The multi-indices of a shape in row-major order, and the position of a multi-index in
  the row-major element list.
\<close>

definition indices :: "nat list \<Rightarrow> nat list list" where
  "indices sh = product_lists (map (\<lambda>n. [0..<n]) sh)"

fun flat_index :: "nat list \<Rightarrow> nat list \<Rightarrow> nat" where
  "flat_index (n # ns) (i # is) = i * prod_list ns + flat_index ns is"
| "flat_index _ _ = 0"

definition item :: "ndarray \<Rightarrow> nat list \<Rightarrow> real" where
  "item a idx = elems a ! flat_index (shape a) idx"

definition valid_index :: "nat list \<Rightarrow> nat list \<Rightarrow> bool" where
  "valid_index sh idx = list_all2 (<) idx sh"

definition zeros_like :: "ndarray \<Rightarrow> ndarray" where
  "zeros_like a = \<lparr>shape = shape a, elems = replicate (prod_list (shape a)) 0\<rparr>"

text \<open>
  Line 93: \<open>dst[slices] = src[slices]\<close> with
  \<open>slices = tuple([slice(min(s, s_)) for s, s_ in zip(src.shape, dst.shape)])\<close>.
  With equal ranks both sides have the shape of the element-wise minimum, and every
  element of that box is written. With different ranks \<open>zip\<close> stops at the shorter
  shape and the two sides differ in shape; numpy then raises unless the right-hand side
  happens to broadcast. That case is not followed further: it ends with
  \<open>BroadcastError\<close>.
\<close>

definition assign_overlap :: "ndarray \<Rightarrow> ndarray \<Rightarrow> error + ndarray" where
  "assign_overlap dst src =
     (let box = map2 min (shape src) (shape dst);
          k = length box
      in if drop k (shape dst) \<noteq> drop k (shape src) then Inl BroadcastError
         else Inr (dst\<lparr>elems :=
                fold (\<lambda>idx d. d[flat_index (shape dst) idx := item src idx])
                  (indices box) (elems dst)\<rparr>))"

text \<open>
  Line 99: \<open>affine[:3, :3] = affine[:3, :3] / zoom_factors[:3]\<close>. The rows of the
  two-dimensional array are cut out of the element list, the first three entries of the
  first three rows are divided by the factors, which broadcast along the rows, and
  written back. A factor 0 would give \<open>inf\<close> or \<open>nan\<close>.
\<close>

definition rows_of :: "ndarray \<Rightarrow> real list list" where
  "rows_of A =
     map (\<lambda>i. take (shape A ! 1) (drop (i * (shape A ! 1)) (elems A))) [0..<shape A ! 0]"

fun collect :: "(error + 'a) list \<Rightarrow> error + 'a list" where
  "collect [] = Inr []"
| "collect (x # xs) =
     (case x of
        Inl e \<Rightarrow> Inl e
      | Inr v \<Rightarrow> (case collect xs of Inl e \<Rightarrow> Inl e | Inr vs \<Rightarrow> Inr (v # vs)))"

definition rescale_affine :: "ndarray \<Rightarrow> real list \<Rightarrow> error + ndarray" where
  "rescale_affine A factors =
     (if list_ex (\<lambda>f. f = 0) factors then Inl NonFinite
      else
        let rows = rows_of A;
            block = map (take 3) (take 3 rows)
        in case collect (map (\<lambda>row. broadcast2 (/) row factors) block) of
             Inl e \<Rightarrow> Inl e
           | Inr divided \<Rightarrow>
               Inr (A\<lparr>elems :=
                 concat (map2 (\<lambda>row d. d @ drop 3 row) (take 3 rows) divided @ drop 3 rows)\<rparr>))"

subsection \<open>Python numbers\<close>

text \<open>\<open>round(x)\<close> rounds halves to the even neighbour; \<open>int(x)\<close> truncates towards zero.\<close>

definition py_round :: "real \<Rightarrow> int" where
  "py_round x =
     (let f = \<lfloor>x\<rfloor>; d = x - of_int f
      in if d < 1 / 2 then f else if d > 1 / 2 then f + 1 else if even f then f else f + 1)"

definition py_int :: "real \<Rightarrow> int" where
  "py_int x = (if 0 \<le> x then \<lfloor>x\<rfloor> else \<lceil>x\<rceil>)"

subsection \<open>The collaborators\<close>

text \<open>
  \<open>arraythings.downsample_array\<close>, \<open>scipy.ndimage.gaussian_filter\<close> (here together
  with the cast to \<open>float32\<close> of its argument, and with \<open>mode="nearest"\<close>) and
  \<open>scipy.ndimage.zoom\<close> (with \<open>mode="nearest"\<close>) are external. They are parameters of
  the model; each may raise.
\<close>

record collaborators =
  downsample_array :: "ndarray \<Rightarrow> int list \<Rightarrow> string + ndarray"
  gaussian_filter :: "ndarray \<Rightarrow> real list \<Rightarrow> string + ndarray"
  ndimage_zoom :: "ndarray \<Rightarrow> real list \<Rightarrow> int \<Rightarrow> string + ndarray"

text \<open>The \<open>order\<close> argument: a string, an \<open>int\<close>, or anything else.\<close>

datatype order_arg = OrderStr string | OrderInt int | OrderOther

subsection \<open>Mean mode, lines 77 to 80\<close>

definition mean_supported :: "real \<Rightarrow> real \<Rightarrow> bool" where
  "mean_supported output_zoom input_zoom = (4 / 3 * output_zoom \<ge> input_zoom)"

text \<open>
  Line 78, one axis. The quotient \<open>output_zoom / input_zoom\<close> of two floats does not
  raise on a zero divisor, but its \<open>inf\<close> or \<open>nan\<close> cannot be rounded to an \<open>int\<close>:
  \<open>round\<close> raises. \<open>1 / int(...)\<close> is Python's division, which raises on 0.
\<close>

definition mean_divisor :: "real \<Rightarrow> real \<Rightarrow> error + int" where
  "mean_divisor input_zoom output_zoom =
     (if input_zoom = 0 then Inl NonFinite else Inr (py_round (output_zoom / input_zoom)))"

definition mean_zoom_factor :: "real \<Rightarrow> real \<Rightarrow> error + real" where
  "mean_zoom_factor input_zoom output_zoom =
     (if input_zoom > 2 / 3 * output_zoom then Inr 1
      else case mean_divisor input_zoom output_zoom of
             Inl e \<Rightarrow> Inl e
           | Inr n \<Rightarrow> if n = 0 then Inl ZeroDivisionError else Inr (1 / of_int n))"

definition window_size :: "real \<Rightarrow> int" where
  "window_size zoom_factor = py_int (1 / zoom_factor)"

definition mean_branch ::
  "collaborators \<Rightarrow> ndarray \<Rightarrow> real list \<Rightarrow> real list \<Rightarrow> error + (ndarray \<times> real list \<times> real list)" where
  "mean_branch ext input_array input_zooms output_zooms =
     (if \<not> list_all (\<lambda>(output_zoom, input_zoom). mean_supported output_zoom input_zoom)
             (zip output_zooms input_zooms)
      then Inl (MeanModeUnsupported input_zooms)
      else case collect (map2 mean_zoom_factor input_zooms output_zooms) of
             Inl e \<Rightarrow> Inl e
           | Inr zoom_factors \<Rightarrow>
               (let output_zooms' = map2 (/) input_zooms zoom_factors
                in case external (downsample_array ext input_array (map window_size zoom_factors)) of
                     Inl e \<Rightarrow> Inl e
                   | Inr output_array \<Rightarrow> Inr (output_array, zoom_factors, output_zooms')))"

subsection \<open>Spline mode, lines 83 to 88\<close>

definition spline_zoom_factor :: "real \<Rightarrow> real \<Rightarrow> error + real" where
  "spline_zoom_factor input_zoom output_zoom =
     (if output_zoom = 0 then Inl NonFinite else Inr (input_zoom / output_zoom))"

definition sigma :: "real \<Rightarrow> error + real" where
  "sigma zoom_factor =
     (if zoom_factor < 1
      then if zoom_factor = 0 \<or> (1 / zoom_factor)\<^sup>2 - 1 < 0 then Inl NonFinite
           else Inr (sqrt (((1 / zoom_factor)\<^sup>2 - 1) / 12))
      else Inr 0)"

definition spline_branch ::
  "collaborators \<Rightarrow> ndarray \<Rightarrow> real list \<Rightarrow> real list \<Rightarrow> order_arg \<Rightarrow> bool
     \<Rightarrow> error + (ndarray \<times> real list \<times> real list)" where
  "spline_branch ext input_array input_zooms output_zooms order prefilter =
     (case order of
        OrderInt n \<Rightarrow>
          (case collect (map2 spline_zoom_factor input_zooms output_zooms) of
             Inl e \<Rightarrow> Inl e
           | Inr zoom_factors \<Rightarrow>
               (case (if prefilter
                      then case collect (map sigma zoom_factors) of
                             Inl e \<Rightarrow> Inl e
                           | Inr sigmas \<Rightarrow> external (gaussian_filter ext input_array sigmas)
                      else Inr input_array) of
                  Inl e \<Rightarrow> Inl e
                | Inr filtered \<Rightarrow>
                    (case external (ndimage_zoom ext filtered zoom_factors n) of
                       Inl e \<Rightarrow> Inl e
                     | Inr output_array \<Rightarrow> Inr (output_array, zoom_factors, output_zooms))))
      | _ \<Rightarrow> Inl OrderNotInt)"

subsection \<open>\<open>resample_nifti\<close>\<close>

text \<open>
  Lines 71 to 88: the checks, the substitution of \<open>None\<close>, and the branch on \<open>order\<close>.
  The result is the output array, the zoom factors and the output zooms.
\<close>

definition substitute_none :: "real list \<Rightarrow> real option list \<Rightarrow> real list" where
  "substitute_none input_zooms output_zooms =
     map2 (\<lambda>input_zoom output_zoom. case output_zoom of None \<Rightarrow> input_zoom | Some z \<Rightarrow> z)
       input_zooms output_zooms"

definition resample_array ::
  "collaborators \<Rightarrow> nifti \<Rightarrow> real option list \<Rightarrow> order_arg \<Rightarrow> bool
     \<Rightarrow> error + (ndarray \<times> real list \<times> real list)" where
  "resample_array ext input_nii output_zooms order prefilter =
     (let input_zooms = zooms input_nii
      in if length input_zooms \<noteq> length output_zooms then Inl DimensionMismatch
         else case np_allclose (take 3 input_zooms) (column_norms (affine input_nii)) of
                Inl e \<Rightarrow> Inl e
              | Inr consistent \<Rightarrow>
                  if \<not> consistent then Inl InconsistentAffine
                  else
                    let input_array = dataobj input_nii;
                        output_zooms' = substitute_none input_zooms output_zooms
                    in if order = OrderStr ''mean''
                       then mean_branch ext input_array input_zooms output_zooms'
                       else spline_branch ext input_array input_zooms output_zooms' order
                              prefilter)"

text \<open>
  Lines 101 and 102. \<open>set_zooms\<close> of nibabel raises \<open>HeaderDataError\<close> unless there is
  one zoom for each axis of the array and none is negative.
\<close>

definition make_image :: "ndarray \<Rightarrow> ndarray \<Rightarrow> real list \<Rightarrow> error + nifti" where
  "make_image output_array output_affine output_zooms =
     (if length output_zooms \<noteq> length (shape output_array) then Inl HeaderDataError
      else if list_ex (\<lambda>z. z < 0) output_zooms then Inl HeaderDataError
      else Inr \<lparr>dataobj = output_array, affine = output_affine, zooms = output_zooms\<rparr>)"

text \<open>Lines 90 to 103.\<close>

definition reconcile ::
  "nifti \<Rightarrow> nifti option \<Rightarrow> ndarray \<times> real list \<times> real list \<Rightarrow> error + nifti" where
  "reconcile input_nii reference_nii computed =
     (case computed of (output_array, zoom_factors, output_zooms) \<Rightarrow>
        (case reference_nii of
           Some ref \<Rightarrow>
             (case np_allclose output_zooms (zooms ref) of
                Inl e \<Rightarrow> Inl e
              | Inr equal \<Rightarrow>
                  if \<not> equal then Inl ZoomsMismatch
                  else (case assign_overlap (zeros_like (dataobj ref)) output_array of
                          Inl e \<Rightarrow> Inl e
                        | Inr output_array' \<Rightarrow>
                            make_image output_array' (affine ref) output_zooms))
         | None \<Rightarrow>
             (case rescale_affine (affine input_nii) (take 3 zoom_factors) of
                Inl e \<Rightarrow> Inl e
              | Inr output_affine \<Rightarrow> make_image output_array output_affine output_zooms)))"

definition resample_nifti ::
  "collaborators \<Rightarrow> nifti \<Rightarrow> real option list \<Rightarrow> order_arg \<Rightarrow> bool \<Rightarrow> nifti option
     \<Rightarrow> error + nifti" where
  "resample_nifti ext input_nii output_zooms order prefilter reference_nii =
     (case resample_array ext input_nii output_zooms order prefilter of
        Inl e \<Rightarrow> Inl e
      | Inr computed \<Rightarrow> reconcile input_nii reference_nii computed)"

text \<open>
  The zoom factor of an axis in the words of the specification: 1 when the input zoom
  exceeds two thirds of the output zoom, and otherwise one over the rounded quotient.
\<close>

definition claimed_mean_zoom_factor :: "real \<Rightarrow> real \<Rightarrow> real" where
  "claimed_mean_zoom_factor input_zoom output_zoom =
     (if input_zoom > 2 / 3 * output_zoom then 1
      else 1 / of_int (py_round (output_zoom / input_zoom)))"


text \<open>Collaborators for the examples: they hand back a given array.\<close>

definition returning :: "ndarray \<Rightarrow> collaborators" where
  "returning out =
     \<lparr>downsample_array = (\<lambda>a w. Inr out),
      gaussian_filter = (\<lambda>a s. Inr a),
      ndimage_zoom = (\<lambda>a z n. Inr out)\<rparr>"

definition cube2 :: nifti where
  "cube2 = \<lparr>dataobj = \<lparr>shape = [2, 2, 2], elems = [1, 2, 3, 4, 5, 6, 7, 8]\<rparr>,
            affine = eye4, zooms = [1, 1, 1]\<rparr>"

definition halved :: ndarray where
  "halved = \<lparr>shape = [1, 2, 2], elems = [3, 4, 5, 6]\<rparr>"

text \<open>
  A reference volume for the examples: two voxels along the first axis, where \<open>halved\<close>
  has one, and one along the second, where \<open>halved\<close> has two.
\<close>

definition shifted4 :: ndarray where
  "shifted4 = \<lparr>shape = [4, 4], elems = [2, 0, 0, 5,  0, 1, 0, 6,  0, 0, 1, 7,  0, 0, 0, 1]\<rparr>"

definition reference_2x1x2 :: nifti where
  "reference_2x1x2 = \<lparr>dataobj = \<lparr>shape = [2, 1, 2], elems = [9, 9, 9, 9]\<rparr>,
                       affine = shifted4, zooms = [2, 1, 1]\<rparr>"

section \<open>Orthogonalizer: results\<close>

lemma orthogonalize_nifti_restores_on_return:
  "orthogonalize_nifti r img p ord s0 = (Inr out, s) \<Longrightarrow>
     s = s0\<lparr>resample_padding := 0, resample_spline_interpolation_order := 0\<rparr>"
  by (auto simp: orthogonalize_nifti_def set_resample_padding_def
        set_resample_spline_interpolation_order_def external_def Let_def split: sum.splits)

text \<open>
  Claim C1. The claim asks that padding 0 and spline order 0 are back in place on every
  exit path, also when the external resampler raises. The code restores them only after
  the resampler has returned: when it raises with padding 5 and order 3 requested, the
  exception leaves the call with padding 5 and order 3 still set.
\<close>

theorem orthogonalize_nifti_leaks_settings_on_error:
  "orthogonalize_nifti failing_resampler tiny_image 5 3 default_settings =
     (Inl (CollaboratorError ''resample''),
      \<lparr>resample_padding = 5, resample_spline_interpolation_order = 3\<rparr>)
   \<and> snd (orthogonalize_nifti failing_resampler tiny_image 5 3 default_settings)
       \<noteq> default_settings"
  by (simp add: orthogonalize_nifti_def failing_resampler_def default_settings_def
        external_def set_resample_padding_def set_resample_spline_interpolation_order_def)

section \<open>AffineGeometry: results\<close>

lemma column_4x4:
  "shape A = [4, 4] \<Longrightarrow>
     column A j = [elems A ! j, elems A ! (4 + j), elems A ! (8 + j), elems A ! (12 + j)]"
  by (simp add: column_def upt_rec)





text \<open>
  Claim C8. On an array of shape 4 by 4 and a triple of tolerances,
  \<open>is_orthogonal_affine\<close> returns true if and only if each of the three angles that
  \<open>get_angles_between_axes\<close> computes in degrees is within its tolerance of 90; an angle
  that is \<open>nan\<close> is within no tolerance. The function is a pure function of its two
  arguments: it reads and writes no state.
\<close>

theorem is_orthogonal_affine_iff:
  assumes "shape A = [4, 4]"
  shows "\<exists>xy xz yz.
           get_angles_between_axes A True = Inr (xy, xz, yz)
           \<and> is_orthogonal_affine A (t0, t1, t2) =
               Inr (case (xy, xz, yz) of
                      (Some a, Some b, Some c) \<Rightarrow>
                        \<bar>90 - a\<bar> \<le> t0 \<and> \<bar>90 - b\<bar> \<le> t1 \<and> \<bar>90 - c\<bar> \<le> t2
                    | _ \<Rightarrow> False)"
proof -
  obtain xy xz yz where g: "get_angles_between_axes A True = Inr (xy, xz, yz)"
    using assms by (simp add: get_angles_between_axes_def Let_def)
  have "is_orthogonal_affine A (t0, t1, t2) =
          Inr (deviation_within xy t0 \<and> deviation_within xz t1 \<and> deviation_within yz t2)"
    by (simp add: is_orthogonal_affine_def g)
  also have "(deviation_within xy t0 \<and> deviation_within xz t1 \<and> deviation_within yz t2) =
      (case (xy, xz, yz) of
         (Some a, Some b, Some c) \<Rightarrow> \<bar>90 - a\<bar> \<le> t0 \<and> \<bar>90 - b\<bar> \<le> t1 \<and> \<bar>90 - c\<bar> \<le> t2
       | _ \<Rightarrow> False)"
    by (simp add: deviation_within_def split: option.splits)
  finally show ?thesis using g by blast
qed

theorem is_orthogonal_affine_iff_witness:
  "shape eye4 = [4, 4] \<and> is_orthogonal_affine eye4 (1, 1, 1) = Inr True
   \<and> shape skewed_bottom = [4, 4] \<and> is_orthogonal_affine skewed_bottom (1, 1, 1) = Inr False"
proof -
  have e: "get_angles_between_axes eye4 True = Inr (Some 90, Some 90, Some 90)"
    by (simp add: get_angles_between_axes_def eye4_def column_4x4 angle_between_def
          np_sum_prod_def linalg_norm_def np_arccos_def to_degrees_def)
  have s: "get_angles_between_axes skewed_bottom True = Inr (Some 60, Some 90, Some 90)"
    by (simp add: get_angles_between_axes_def skewed_bottom_def column_4x4 angle_between_def
          np_sum_prod_def linalg_norm_def np_arccos_def to_degrees_def)
  have she: "shape eye4 = [4, 4]" by (simp add: eye4_def)
  have shs: "shape skewed_bottom = [4, 4]" by (simp add: skewed_bottom_def)
  show ?thesis
    using is_orthogonal_affine_iff [OF she, of 1 1 1] is_orthogonal_affine_iff [OF shs, of 1 1 1]
      e s she shs
    by auto
qed


section \<open>Resampler, mean mode: results\<close>

lemma collect_Inr:
  "collect xs = Inr vs \<Longrightarrow> length vs = length xs \<and> (\<forall>i < length xs. xs ! i = Inr (vs ! i))"
proof (induction xs arbitrary: vs)
  case Nil
  then show ?case by simp
next
  case (Cons x xs)
  then obtain v vs' where x: "x = Inr v" and c: "collect xs = Inr vs'" and vs: "vs = v # vs'"
    by (auto split: sum.splits)
  have "length vs' = length xs \<and> (\<forall>i < length xs. xs ! i = Inr (vs' ! i))"
    using Cons.IH [OF c] .
  then show ?case using x vs by (auto simp: nth_Cons split: nat.splits)
qed

lemma mean_zoom_factor_claimed:
  "mean_zoom_factor iz oz = Inr zf \<Longrightarrow> zf = claimed_mean_zoom_factor iz oz \<and> zf \<noteq> 0"
  by (auto simp: mean_zoom_factor_def mean_divisor_def claimed_mean_zoom_factor_def
        split: if_splits sum.splits)

lemma mean_branch_Inr:
  assumes "mean_branch ext arr izs ozs = Inr (out, zfs, ozs')"
    and len: "length ozs = length izs"
  shows "length zfs = length izs \<and> ozs' = map2 (/) izs zfs
         \<and> (\<forall>i < length izs. zfs ! i = claimed_mean_zoom_factor (izs ! i) (ozs ! i))"
proof -
  from assms(1) have c: "collect (map2 mean_zoom_factor izs ozs) = Inr zfs"
    and o: "ozs' = map2 (/) izs zfs"
    by (auto simp: mean_branch_def Let_def split: if_splits sum.splits)
  from collect_Inr [OF c] len
  have l: "length zfs = length izs"
    and e: "\<forall>i < length izs. map2 mean_zoom_factor izs ozs ! i = Inr (zfs ! i)"
    by auto
  have "zfs ! i = claimed_mean_zoom_factor (izs ! i) (ozs ! i)" if "i < length izs" for i
  proof -
    have "mean_zoom_factor (izs ! i) (ozs ! i) = Inr (zfs ! i)"
      using e that len by auto
    then show ?thesis using mean_zoom_factor_claimed by blast
  qed
  then show ?thesis using l o by blast
qed



lemma length_substitute_none:
  "length izs = length ozs \<Longrightarrow> length (substitute_none izs ozs) = length izs"
  by (simp add: substitute_none_def)


lemma column_norms_eye4: "column_norms eye4 = [1, 1, 1]"
  by (simp add: column_norms_def column_def eye4_def linalg_norm_def upt_rec)

lemma cube2_mean:
  "resample_nifti (returning halved) cube2 [Some 2, None, Some 1] (OrderStr ''mean'') True None
     = Inr \<lparr>dataobj = halved, affine = eye4\<lparr>elems := [2, 0, 0, 0,  0, 1, 0, 0,  0, 0, 1, 0,  0, 0, 0, 1]\<rparr>, zooms = [2, 1, 1]\<rparr>"
  apply (simp add: resample_nifti_def resample_array_def cube2_def column_norms_eye4 np_allclose_def broadcast2_def is_close_def substitute_none_def Let_def)
  apply (simp add: mean_branch_def mean_supported_def mean_zoom_factor_def mean_divisor_def py_round_def window_size_def py_int_def returning_def external_def)
  apply (simp add: reconcile_def rescale_affine_def rows_of_def eye4_def upt_rec broadcast2_def make_image_def halved_def)
  done



text \<open>
  Claim C9. In mean mode the \<open>prefilter\<close> argument is not read: the call with \<open>True\<close>
  and the call with \<open>False\<close> end the same way, with the same error or with the same
  array, affine and zooms.
\<close>

theorem mean_mode_ignores_prefilter:
  "resample_nifti ext v output_zooms (OrderStr ''mean'') True ref
     = resample_nifti ext v output_zooms (OrderStr ''mean'') False ref"
proof -
  have "resample_array ext v output_zooms (OrderStr ''mean'') True
          = resample_array ext v output_zooms (OrderStr ''mean'') False"
    by (simp add: resample_array_def Let_def split: sum.splits)
  then show ?thesis by (simp add: resample_nifti_def)
qed






section \<open>Resampler, the condition of mean mode: results\<close>
















section \<open>Resampler, the affine without a reference: results\<close>

lemma list_of_length_16:
  "length (xs :: real list) = 16 \<Longrightarrow>
     \<exists>a0 a1 a2 a3 a4 a5 a6 a7 a8 a9 a10 a11 a12 a13 a14 a15.
       xs = [a0, a1, a2, a3, a4, a5, a6, a7, a8, a9, a10, a11, a12, a13, a14, a15]"
  by (auto simp: eval_nat_numeral length_Suc_conv)

lemma rescale_affine_4x4:
  assumes "shape A = [4, 4]"
    and "elems A = [a0, a1, a2, a3, a4, a5, a6, a7, a8, a9, a10, a11, a12, a13, a14, a15]"
    and "z0 \<noteq> 0" "z1 \<noteq> 0" "z2 \<noteq> 0"
  shows "rescale_affine A [z0, z1, z2] =
           Inr (A\<lparr>elems := [a0 / z0, a1 / z1, a2 / z2, a3,
                            a4 / z0, a5 / z1, a6 / z2, a7,
                            a8 / z0, a9 / z1, a10 / z2, a11,
                            a12, a13, a14, a15]\<rparr>)"
  using assms by (simp add: rescale_affine_def rows_of_def broadcast2_def upt_rec Let_def)

lemma rescale_affine_zero:
  "rescale_affine A fs = Inr B \<Longrightarrow> 0 \<notin> set fs"
  by (auto simp: rescale_affine_def list_ex_iff split: if_splits)


lemma spline_branch_length:
  assumes "spline_branch ext arr izs ozs order prefilter = Inr (out, zfs, ozs')"
    and "length ozs = length izs"
  shows "length zfs = length izs"
proof -
  from assms(1) have "collect (map2 spline_zoom_factor izs ozs) = Inr zfs"
    by (auto simp: spline_branch_def split: order_arg.splits sum.splits if_splits)
  from collect_Inr [OF this] assms(2) show ?thesis by simp
qed

lemma resample_array_length:
  assumes "resample_array ext v output_zooms order prefilter = Inr (out, zfs, ozs)"
  shows "length zfs = length (zooms v)"
proof -
  from assms have len: "length (zooms v) = length output_zooms"
    by (auto simp: resample_array_def Let_def split: if_splits)
  note sub = length_substitute_none [OF len]
  show ?thesis
  proof (cases "order = OrderStr ''mean''")
    case True
    with assms have "mean_branch ext (dataobj v) (zooms v)
                       (substitute_none (zooms v) output_zooms) = Inr (out, zfs, ozs)"
      by (auto simp: resample_array_def Let_def split: if_splits sum.splits)
    from mean_branch_Inr [OF this sub] show ?thesis by simp
  next
    case False
    with assms have "spline_branch ext (dataobj v) (zooms v)
                       (substitute_none (zooms v) output_zooms) order prefilter
                     = Inr (out, zfs, ozs)"
      by (auto simp: resample_array_def Let_def split: if_splits sum.splits)
    from spline_branch_length [OF this sub] show ?thesis .
  qed
qed

lemma make_image_affine: "make_image a b z = Inr r \<Longrightarrow> affine r = b \<and> dataobj r = a"
  by (auto simp: make_image_def split: if_splits)

lemma item_4x4: "shape A = [4, 4] \<Longrightarrow> item A [i, j] = elems A ! (i * 4 + j)"
  by (simp add: item_def)

text \<open>
  Claim C6. When \<open>resample_nifti\<close> returns without a reference volume, on a volume with
  its three spatial axes and an affine of shape 4 by 4, the affine of the result has in
  its upper left block of 3 by 3 every entry of column \<open>j\<close> of the input affine divided
  by the zoom factor of axis \<open>j\<close>, and every other entry, the translation column and
  the bottom row among them, as in the input affine.
\<close>

theorem resample_affine_without_reference:
  assumes run: "resample_nifti ext v output_zooms order prefilter None = Inr r"
    and ra: "resample_array ext v output_zooms order prefilter = Inr (out, zfs, ozs)"
    and sh: "shape (affine v) = [4, 4]" and el: "length (elems (affine v)) = 16"
    and three: "3 \<le> length (zooms v)"
  shows "shape (affine r) = [4, 4]
         \<and> (\<forall>i < 4. \<forall>j < 4.
               item (affine r) [i, j] =
                 (if i < 3 \<and> j < 3 then item (affine v) [i, j] / zfs ! j
                  else item (affine v) [i, j]))"
proof -
  from run ra obtain aff where
    rs: "rescale_affine (affine v) (take 3 zfs) = Inr aff" and r: "affine r = aff"
    by (auto simp: resample_nifti_def reconcile_def split: sum.splits dest: make_image_affine)
  have "3 \<le> length zfs" using resample_array_length [OF ra] three by simp
  then obtain z0 z1 z2 rest where zfs: "zfs = z0 # z1 # z2 # rest"
    by (cases zfs; cases "tl zfs"; cases "tl (tl zfs)") auto
  then have t: "take 3 zfs = [z0, z1, z2]" by simp
  from rescale_affine_zero [OF rs] t have nz: "z0 \<noteq> 0" "z1 \<noteq> 0" "z2 \<noteq> 0" by auto
  from list_of_length_16 [OF el] obtain a0 a1 a2 a3 a4 a5 a6 a7 a8 a9 a10 a11 a12 a13 a14 a15
    where a: "elems (affine v) = [a0, a1, a2, a3, a4, a5, a6, a7, a8, a9, a10, a11, a12,
                                  a13, a14, a15]"
    by blast
  from rescale_affine_4x4 [OF sh a nz] rs t
  have aff: "aff = (affine v)\<lparr>elems := [a0 / z0, a1 / z1, a2 / z2, a3,
                            a4 / z0, a5 / z1, a6 / z2, a7,
                            a8 / z0, a9 / z1, a10 / z2, a11,
                            a12, a13, a14, a15]\<rparr>"
    by simp
  have shr: "shape (affine r) = [4, 4]" using r aff sh by simp
  have "item (affine r) [i, j] =
          (if i < 3 \<and> j < 3 then item (affine v) [i, j] / zfs ! j else item (affine v) [i, j])"
    if "i < 4" "j < 4" for i j
  proof -
    from that have i: "i = 0 \<or> i = 1 \<or> i = 2 \<or> i = 3" and j: "j = 0 \<or> j = 1 \<or> j = 2 \<or> j = 3"
      by linarith+
    have er: "elems (affine r) = [a0 / z0, a1 / z1, a2 / z2, a3,
                            a4 / z0, a5 / z1, a6 / z2, a7,
                            a8 / z0, a9 / z1, a10 / z2, a11,
                            a12, a13, a14, a15]"
      using r aff by simp
    show ?thesis
      unfolding item_4x4 [OF shr] item_4x4 [OF sh] er a zfs
      using i j by auto
  qed
  then show ?thesis using shr by blast
qed

lemma cube2_mean_array:
  "resample_array (returning halved) cube2 [Some 2, None, Some 1] (OrderStr ''mean'') True
     = Inr (halved, [1 / 2, 1, 1], [2, 1, 1])"
  apply (simp add: resample_array_def cube2_def column_norms_eye4 np_allclose_def
      broadcast2_def is_close_def substitute_none_def Let_def)
  apply (simp add: mean_branch_def mean_supported_def mean_zoom_factor_def mean_divisor_def
      py_round_def window_size_def py_int_def returning_def external_def)
  done

theorem resample_affine_without_reference_witness:
  "resample_nifti (returning halved) cube2 [Some 2, None, Some 1] (OrderStr ''mean'') True None
     = Inr \<lparr>dataobj = halved,
            affine = eye4\<lparr>elems := [2, 0, 0, 0,  0, 1, 0, 0,  0, 0, 1, 0,  0, 0, 0, 1]\<rparr>,
            zooms = [2, 1, 1]\<rparr>
   \<and> item (affine cube2) [0, 0] = 1
   \<and> item (eye4\<lparr>elems := [2, 0, 0, 0,  0, 1, 0, 0,  0, 0, 1, 0,  0, 0, 0, 1]\<rparr>) [0, 0]
       = item (affine cube2) [0, 0] / (1 / 2)
   \<and> item (eye4\<lparr>elems := [2, 0, 0, 0,  0, 1, 0, 0,  0, 0, 1, 0,  0, 0, 0, 1]\<rparr>) [3, 3]
       = item (affine cube2) [3, 3]"
proof -
  let ?r = "\<lparr>dataobj = halved,
            affine = eye4\<lparr>elems := [2, 0, 0, 0,  0, 1, 0, 0,  0, 0, 1, 0,  0, 0, 0, 1]\<rparr>,
            zooms = [2, 1, 1]\<rparr>"
  have sh: "shape (affine cube2) = [4, 4]" and el: "length (elems (affine cube2)) = 16"
    and three: "3 \<le> length (zooms cube2)"
    by (simp_all add: cube2_def eye4_def)
  have all: "\<forall>i < 4. \<forall>j < 4.
               item (affine ?r) [i, j] =
                 (if i < 3 \<and> j < 3 then item (affine cube2) [i, j] / [1 / 2, 1, 1] ! j
                  else item (affine cube2) [i, j])"
    using resample_affine_without_reference [OF cube2_mean cube2_mean_array sh el three]
    by blast
  have c00: "item (affine ?r) [0, 0] = item (affine cube2) [0, 0] / (1 / 2)"
    using all by force
  have c33: "item (affine ?r) [3, 3] = item (affine cube2) [3, 3]"
    using all by force
  have one: "item (affine cube2) [0, 0] = 1"
    by (simp add: item_def cube2_def eye4_def)
  show ?thesis using cube2_mean c00 c33 one by simp
qed

section \<open>Resampler, the reference volume: results\<close>

lemma set_indices: "set (indices sh) = {idx. valid_index sh idx}"
  by (auto simp: indices_def product_lists_set valid_index_def list_all2_map2)

lemma flat_index_less:
  "valid_index sh idx \<Longrightarrow> flat_index sh idx < prod_list sh"
  unfolding valid_index_def
proof (induction idx sh rule: list_all2_induct)
  case Nil
  then show ?case by simp
next
  case (Cons i idx n sh)
  have "i * prod_list sh + flat_index sh idx < i * prod_list sh + prod_list sh"
    using Cons.IH by simp
  also have "\<dots> = Suc i * prod_list sh" by simp
  also have "\<dots> \<le> n * prod_list sh"
    using Cons.hyps(1) by (intro mult_le_mono1) simp
  finally show ?case by simp
qed

lemma flat_index_inj:
  "valid_index sh idx \<Longrightarrow> valid_index sh idx' \<Longrightarrow>
     flat_index sh idx = flat_index sh idx' \<Longrightarrow> idx = idx'"
  unfolding valid_index_def
proof (induction idx sh arbitrary: idx' rule: list_all2_induct)
  case Nil
  then show ?case by simp
next
  case (Cons i idx n sh)
  from Cons.prems(1) obtain i' rest where idx': "idx' = i' # rest"
    and v': "list_all2 (<) rest sh"
    by (auto simp: list_all2_Cons2)
  let ?P = "prod_list sh"
  have r: "flat_index sh idx < ?P" and r': "flat_index sh rest < ?P"
    using flat_index_less Cons.hyps(2) v' by (auto simp: valid_index_def)
  from Cons.prems(2) idx'
  have eq: "i * ?P + flat_index sh idx = i' * ?P + flat_index sh rest" by simp
  have "(i * ?P + flat_index sh idx) div ?P = i" using r by simp
  moreover have "(i' * ?P + flat_index sh rest) div ?P = i'" using r' by simp
  ultimately have ii: "i = i'" using eq by simp
  with eq have "flat_index sh idx = flat_index sh rest" by simp
  from Cons.IH [OF v' this] ii idx' show ?case by simp
qed

lemma fold_update_length:
  "length (fold (\<lambda>idx d. d[f idx := g idx]) idxs d) = length d"
  by (induction idxs arbitrary: d) auto

lemma fold_update_other:
  "p \<notin> f ` set idxs \<Longrightarrow> fold (\<lambda>idx d. d[f idx := g idx]) idxs d ! p = d ! p"
  by (induction idxs arbitrary: d) auto

lemma fold_update_hit:
  "idx \<in> set idxs \<Longrightarrow> inj_on f (set idxs) \<Longrightarrow> f idx < length d \<Longrightarrow>
     fold (\<lambda>idx d. d[f idx := g idx]) idxs d ! f idx = g idx"
proof (induction idxs arbitrary: d)
  case Nil
  then show ?case by simp
next
  case (Cons x xs)
  show ?case
  proof (cases "idx \<in> set xs")
    case True
    have "inj_on f (set xs)" using Cons.prems(2) by (simp add: inj_on_def)
    from Cons.IH [OF True this, of "d[f x := g x]"] Cons.prems(3) show ?thesis by simp
  next
    case False
    with Cons.prems(1) have x: "idx = x" by simp
    have "f x \<notin> f ` set xs"
      using Cons.prems(2) False x by (auto simp: inj_on_def)
    from fold_update_other [OF this, of g "d[f x := g x]"] Cons.prems(3) x
    show ?thesis by simp
  qed
qed

lemma valid_index_min:
  "length s = length s' \<Longrightarrow>
     valid_index (map2 min s s') idx \<longleftrightarrow> valid_index s idx \<and> valid_index s' idx"
  by (auto simp: valid_index_def list_all2_conv_all_nth)

lemma drop_min_same_rank:
  "drop (min (length a) (length b)) a = drop (min (length a) (length b)) b \<Longrightarrow>
     length a = length b"
proof -
  assume "drop (min (length a) (length b)) a = drop (min (length a) (length b)) b"
  then have "length (drop (min (length a) (length b)) a)
               = length (drop (min (length a) (length b)) b)"
    by simp
  then show ?thesis by (simp add: min_def split: if_splits)
qed


lemma assign_overlap_item:
  assumes ok: "assign_overlap dst src = Inr res"
    and len: "length (elems dst) = prod_list (shape dst)"
    and v: "valid_index (shape dst) idx"
  shows "shape res = shape dst
         \<and> item res idx = (if valid_index (map2 min (shape src) (shape dst)) idx
                           then item src idx else item dst idx)"
proof -
  let ?box = "map2 min (shape src) (shape dst)"
  let ?f = "flat_index (shape dst)"
  let ?g = "item src"
  from ok have dr: "drop (length ?box) (shape dst) = drop (length ?box) (shape src)"
    and res: "res = dst\<lparr>elems := fold (\<lambda>idx d. d[?f idx := ?g idx]) (indices ?box) (elems dst)\<rparr>"
    by (auto simp: assign_overlap_def Let_def split: if_splits)
  have rank: "length (shape src) = length (shape dst)"
    using dr drop_min_same_rank [of "shape src" "shape dst"] by simp
  have in_dst: "valid_index (shape dst) i" if "valid_index ?box i" for i
    using that valid_index_min [OF rank] by simp
  have inj: "inj_on ?f (set (indices ?box))"
    by (auto simp: inj_on_def set_indices intro: flat_index_inj in_dst)
  have bound: "?f idx < length (elems dst)"
    using flat_index_less [OF v] len by simp
  have sh: "shape res = shape dst" using res by simp
  have "item res idx = (if valid_index ?box idx then ?g idx else item dst idx)"
  proof (cases "valid_index ?box idx")
    case True
    then have "idx \<in> set (indices ?box)" by (simp add: set_indices)
    from fold_update_hit [OF this inj bound] True res show ?thesis
      by (simp add: item_def)
  next
    case False
    have "?f idx \<notin> ?f ` set (indices ?box)"
    proof
      assume "?f idx \<in> ?f ` set (indices ?box)"
      then obtain i where i: "valid_index ?box i" and e: "?f idx = ?f i"
        by (auto simp: set_indices)
      from flat_index_inj [OF v in_dst [OF i] e] i False show False by simp
    qed
    from fold_update_other [OF this] False res show ?thesis
      by (simp add: item_def)
  qed
  with sh show ?thesis by simp
qed

lemma item_zeros_like: "valid_index (shape a) idx \<Longrightarrow> item (zeros_like a) idx = 0"
  using flat_index_less [of "shape a" idx] by (simp add: item_def zeros_like_def)

text \<open>
  Claim C5. With a reference volume, whenever \<open>resample_nifti\<close> returns, the zooms of the
  reference were close to the computed output zooms, the array of the result has the
  shape of the reference array, it holds the computed output array on the box of the
  element-wise minimum of the two shapes, which starts at index 0 on every axis, it is
  zero at every other index, and the affine of the result is the affine of the
  reference. The call does return when the zooms are close, the computed array has as
  many axes as the reference array, and the output zooms are one per axis and not
  negative.
\<close>

theorem resample_with_reference:
  assumes ra: "resample_array ext v output_zooms order prefilter = Inr (out, zfs, ozs)"
  shows "(resample_nifti ext v output_zooms order prefilter (Some ref) = Inr r \<longrightarrow>
            np_allclose ozs (zooms ref) = Inr True
            \<and> shape (dataobj r) = shape (dataobj ref)
            \<and> (\<forall>idx. valid_index (shape (dataobj ref)) idx \<longrightarrow>
                  item (dataobj r) idx =
                    (if valid_index (map2 min (shape out) (shape (dataobj ref))) idx
                     then item out idx else 0))
            \<and> affine r = affine ref)
       \<and> (np_allclose ozs (zooms ref) = Inr True
          \<and> length (shape out) = length (shape (dataobj ref))
          \<and> length ozs = length (shape (dataobj ref))
          \<and> \<not> list_ex (\<lambda>z. z < 0) ozs \<longrightarrow>
            (\<exists>r'. resample_nifti ext v output_zooms order prefilter (Some ref) = Inr r'))"
proof -
  let ?R = "resample_nifti ext v output_zooms order prefilter (Some ref)"
  let ?Z = "zeros_like (dataobj ref)"
  have R: "?R = reconcile v (Some ref) (out, zfs, ozs)"
    using ra by (simp add: resample_nifti_def)
  have zlen: "length (elems ?Z) = prod_list (shape ?Z)" and zsh: "shape ?Z = shape (dataobj ref)"
    by (simp_all add: zeros_like_def)
  have returned:
    "np_allclose ozs (zooms ref) = Inr True
     \<and> shape (dataobj r) = shape (dataobj ref)
     \<and> (\<forall>idx. valid_index (shape (dataobj ref)) idx \<longrightarrow>
           item (dataobj r) idx =
             (if valid_index (map2 min (shape out) (shape (dataobj ref))) idx
              then item out idx else 0))
     \<and> affine r = affine ref"
    if run: "?R = Inr r"
  proof -
    from run R obtain arr where close: "np_allclose ozs (zooms ref) = Inr True"
      and ao: "assign_overlap ?Z out = Inr arr"
      and mk: "make_image arr (affine ref) ozs = Inr r"
      by (auto simp: reconcile_def split: sum.splits if_splits)
    from make_image_affine [OF mk] have r: "affine r = affine ref" "dataobj r = arr" by simp_all
    have "item arr idx =
            (if valid_index (map2 min (shape out) (shape (dataobj ref))) idx
             then item out idx else 0)"
      if vi: "valid_index (shape (dataobj ref)) idx" for idx
    proof -
      from vi have vz: "valid_index (shape ?Z) idx" by (simp add: zsh)
      from assign_overlap_item [OF ao zlen vz] item_zeros_like [OF vi] show ?thesis
        by (simp add: zsh)
    qed
    moreover have "shape arr = shape (dataobj ref)"
    proof -
      from ao have "shape arr = shape ?Z"
        by (auto simp: assign_overlap_def Let_def split: if_splits)
      then show ?thesis by (simp add: zsh)
    qed
    ultimately show ?thesis using close r by simp
  qed
  have returns: "\<exists>r'. ?R = Inr r'"
    if close: "np_allclose ozs (zooms ref) = Inr True"
      and rank: "length (shape out) = length (shape (dataobj ref))"
      and hdr: "length ozs = length (shape (dataobj ref))"
      and nonneg: "\<not> list_ex (\<lambda>z. z < 0) ozs"
  proof -
    obtain arr where ao: "assign_overlap ?Z out = Inr arr" and sa: "shape arr = shape ?Z"
      using rank by (simp add: assign_overlap_def Let_def zsh)
    have "make_image arr (affine ref) ozs
            = Inr \<lparr>dataobj = arr, affine = affine ref, zooms = ozs\<rparr>"
      using hdr nonneg sa by (simp add: make_image_def zsh)
    then show ?thesis using R close ao by (simp add: reconcile_def)
  qed
  show ?thesis using returned returns by blast
qed

lemma cube2_mean_reference:
  "resample_nifti (returning halved) cube2 [Some 2, None, Some 1] (OrderStr ''mean'') True
     (Some reference_2x1x2)
   = Inr \<lparr>dataobj = \<lparr>shape = [2, 1, 2], elems = [3, 4, 0, 0]\<rparr>,
          affine = shifted4, zooms = [2, 1, 1]\<rparr>"
  apply (simp add: resample_nifti_def cube2_mean_array)
  apply (simp add: reconcile_def reference_2x1x2_def np_allclose_def broadcast2_def
      is_close_def)
  apply (simp add: assign_overlap_def zeros_like_def halved_def indices_def upt_rec item_def
      make_image_def)
  apply (simp add: eval_nat_numeral)
  done

theorem resample_with_reference_witness:
  "resample_array (returning halved) cube2 [Some 2, None, Some 1] (OrderStr ''mean'') True
     = Inr (halved, [1 / 2, 1, 1], [2, 1, 1])
   \<and> resample_nifti (returning halved) cube2 [Some 2, None, Some 1] (OrderStr ''mean'') True
       (Some reference_2x1x2)
     = Inr \<lparr>dataobj = \<lparr>shape = [2, 1, 2], elems = [3, 4, 0, 0]\<rparr>,
            affine = shifted4, zooms = [2, 1, 1]\<rparr>
   \<and> shape (dataobj reference_2x1x2) = [2, 1, 2] \<and> shape halved = [1, 2, 2]
   \<and> valid_index (shape (dataobj reference_2x1x2)) [0, 0, 1]
   \<and> valid_index (map2 min (shape halved) (shape (dataobj reference_2x1x2))) [0, 0, 1]
   \<and> item \<lparr>shape = [2, 1, 2], elems = [3, 4, 0, 0]\<rparr> [0, 0, 1] = item halved [0, 0, 1]
   \<and> valid_index (shape (dataobj reference_2x1x2)) [1, 0, 1]
   \<and> \<not> valid_index (map2 min (shape halved) (shape (dataobj reference_2x1x2))) [1, 0, 1]
   \<and> item \<lparr>shape = [2, 1, 2], elems = [3, 4, 0, 0]\<rparr> [1, 0, 1] = 0
   \<and> affine reference_2x1x2 = shifted4"
proof -
  let ?r = "\<lparr>dataobj = \<lparr>shape = [2, 1, 2], elems = [3, 4, 0, 0]\<rparr>,
            affine = shifted4, zooms = [2, 1, 1 :: real]\<rparr>"
  have shapes: "shape (dataobj reference_2x1x2) = [2, 1, 2]" "shape halved = [1, 2, 2]"
    "affine reference_2x1x2 = shifted4"
    by (simp_all add: reference_2x1x2_def halved_def)
  have v1: "valid_index (shape (dataobj reference_2x1x2)) [0, 0, 1]"
    and b1: "valid_index (map2 min (shape halved) (shape (dataobj reference_2x1x2))) [0, 0, 1]"
    and v2: "valid_index (shape (dataobj reference_2x1x2)) [1, 0, 1]"
    and b2: "\<not> valid_index (map2 min (shape halved) (shape (dataobj reference_2x1x2))) [1, 0, 1]"
    by (simp_all add: shapes valid_index_def)
  from resample_with_reference
    [OF cube2_mean_array, where ref = reference_2x1x2 and r = ?r] cube2_mean_reference
  have all: "\<forall>idx. valid_index (shape (dataobj reference_2x1x2)) idx \<longrightarrow>
                  item (dataobj ?r) idx =
                    (if valid_index (map2 min (shape halved) (shape (dataobj reference_2x1x2))) idx
                     then item halved idx else 0)"
    by blast
  have i1: "item (dataobj ?r) [0, 0, 1] = item halved [0, 0, 1]"
    using all v1 b1 by simp
  have i2: "item (dataobj ?r) [1, 0, 1] = 0"
    using all v2 b2 by simp
  show ?thesis
    using cube2_mean_array cube2_mean_reference shapes v1 b1 v2 b2 i1 i2 by simp
qed

section \<open>Resampler, unit zooms: results\<close>

text \<open>
  Unit zooms, order 3, no prefilter, no reference: the input array goes to
  \<open>scipy.ndimage.zoom\<close> as it is, with the factors \<open>(1, 1, 1)\<close>, and the affine and the
  zooms of the result are those of the input. What the array of the result is, is
  decided inside that routine.
\<close>

lemma rescale_affine_unit:
  assumes sh: "shape A = [4, 4]" and el: "length (elems A) = 16"
  shows "rescale_affine A [1, 1, 1] = Inr A"
proof -
  from list_of_length_16 [OF el] obtain a0 a1 a2 a3 a4 a5 a6 a7 a8 a9 a10 a11 a12 a13 a14 a15
    where a: "elems A = [a0, a1, a2, a3, a4, a5, a6, a7, a8, a9, a10, a11, a12, a13, a14, a15]"
    by blast
  have "rescale_affine A [1, 1, 1] = Inr (A\<lparr>elems := elems A\<rparr>)"
    using rescale_affine_4x4 [OF sh a, of 1 1 1] a by simp
  then show ?thesis by simp
qed

lemma resample_unit_zooms_delegates:
  assumes z: "zooms v = [1, 1, 1]"
    and cons: "np_allclose (take 3 (zooms v)) (column_norms (affine v)) = Inr True"
    and sh: "shape (affine v) = [4, 4]" and el: "length (elems (affine v)) = 16"
  shows "resample_nifti ext v [Some 1, Some 1, Some 1] (OrderInt 3) False None =
           (case external (ndimage_zoom ext (dataobj v) [1, 1, 1] 3) of
              Inl e \<Rightarrow> Inl e
            | Inr output_array \<Rightarrow> make_image output_array (affine v) [1, 1, 1])"
proof -
  have ra: "resample_array ext v [Some 1, Some 1, Some 1] (OrderInt 3) False =
          (case external (ndimage_zoom ext (dataobj v) [1, 1, 1] 3) of
             Inl e \<Rightarrow> Inl e
           | Inr output_array \<Rightarrow> Inr (output_array, [1, 1, 1], [1, 1, 1]))"
    using cons z
    by (simp add: resample_array_def Let_def z substitute_none_def spline_branch_def
          spline_zoom_factor_def split: sum.splits)
  show ?thesis
    by (simp add: resample_nifti_def ra reconcile_def rescale_affine_unit [OF sh el]
          split: sum.splits)
qed

end
